theory Spec2Isabelle
  imports Complex_Main "HOL-Library.Multiset" "HOL-Library.List_Lexorder" "HOL-Library.Char_ord"
begin

section \<open>Numbers, strings and query parameters\<close>

text \<open>
  JavaScript numbers are modelled with exact arithmetic: an amount is a rational number, so
  binary floating-point rounding, \<open>NaN\<close> and \<open>Infinity\<close> are outside the model. The one
  place where the controllers can produce a non-finite number, a division by a total, is
  modelled by \<open>js_div\<close>, whose result \<open>None\<close> stands for \<open>NaN\<close> or an infinity.
\<close>

text \<open>
  \<open>parseFloat(x.toFixed(2))\<close>: the decimal with two fraction digits nearest to \<open>x\<close>, a tie
  going away from zero (ECMAScript: "if there are two such n, pick the larger n", applied to
  the absolute value).
\<close>

definition toFixed2 :: "rat \<Rightarrow> rat" where
  "toFixed2 x = (if x < 0 then - (of_int \<lfloor>(- x) * 100 + 1 / 2\<rfloor> / 100)
                 else of_int \<lfloor>x * 100 + 1 / 2\<rfloor> / 100)"

definition js_div :: "rat \<Rightarrow> rat \<Rightarrow> rat option" where
  "js_div a b = (if b = 0 then None else Some (a / b))"

text \<open>\<open>xs.reduce((sum, x) => sum + x, 0)\<close>.\<close>

definition reduce_sum :: "rat list \<Rightarrow> rat" where
  "reduce_sum xs = foldl (\<lambda>sum x. sum + x) 0 xs"

text \<open>
  \<open>parseInt(s)\<close> on a string: leading white space is skipped, then an optional sign, then an
  optional \<open>0x\<close> prefix, then the longest prefix of digits of the radix. \<open>None\<close> is \<open>NaN\<close>.
\<close>

definition is_space :: "char \<Rightarrow> bool" where
  "is_space c = (c \<in> set [CHR '' '', CHR 0x09, CHR 0x0A, CHR 0x0B, CHR 0x0C, CHR 0x0D])"

definition digit_of :: "char \<Rightarrow> nat option" where
  "digit_of c =
     (let n = (of_char c :: nat) in
      if 48 \<le> n \<and> n \<le> 57 then Some (n - 48)
      else if 97 \<le> n \<and> n \<le> 102 then Some (n - 87)
      else if 65 \<le> n \<and> n \<le> 70 then Some (n - 55)
      else None)"

definition is_digit_in :: "nat \<Rightarrow> char \<Rightarrow> bool" where
  "is_digit_in radix c = (case digit_of c of None \<Rightarrow> False | Some d \<Rightarrow> d < radix)"

definition digits_value :: "nat \<Rightarrow> string \<Rightarrow> int option" where
  "digits_value radix s =
     (let ds = takeWhile (is_digit_in radix) s in
      if ds = [] then None
      else Some (int (foldl (\<lambda>acc c. acc * radix + the (digit_of c)) 0 ds)))"

definition unsigned_value :: "string \<Rightarrow> int option" where
  "unsigned_value s =
     (if take 2 s = ''0x'' \<or> take 2 s = ''0X'' then digits_value 16 (drop 2 s)
      else digits_value 10 s)"

definition parseInt :: "string \<Rightarrow> int option" where
  "parseInt s =
     (case dropWhile is_space s of
        [] \<Rightarrow> None
      | c # cs \<Rightarrow>
          if c = CHR ''-'' then map_option uminus (unsigned_value cs)
          else if c = CHR ''+'' then unsigned_value cs
          else unsigned_value (c # cs))"

section \<open>The expense collection\<close>

text \<open>
  A document of the \<open>Expense\<close> schema. \<open>expense_id\<close> is the ObjectId \<open>_id\<close>; instants
  (\<open>date\<close>, \<open>createdAt\<close>, \<open>updatedAt\<close>) are milliseconds since the epoch, as in a
  JavaScript \<open>Date\<close>. The collection is the list of its documents, in natural order.
\<close>

record expense =
  expense_id :: nat
  userId :: string
  title :: string
  amount :: rat
  category :: string
  date :: int
  e_notes :: string
  paymentMethod :: string
  createdAt :: int
  updatedAt :: int

type_synonym store = "expense list"

text \<open>The query filter object built by the controllers: \<open>{userId, category?, date: {$gte?, $lte?}}\<close>.\<close>

record query_filter =
  f_userId :: string
  f_category :: "string option"
  f_gte :: "int option"
  f_lte :: "int option"

definition matches :: "query_filter \<Rightarrow> expense \<Rightarrow> bool" where
  "matches f e =
     (userId e = f_userId f
      \<and> (case f_category f of None \<Rightarrow> True | Some c \<Rightarrow> category e = c)
      \<and> (case f_gte f of None \<Rightarrow> True | Some d \<Rightarrow> d \<le> date e)
      \<and> (case f_lte f of None \<Rightarrow> True | Some d \<Rightarrow> date e \<le> d))"

definition find_all :: "query_filter \<Rightarrow> store \<Rightarrow> expense list" where
  "find_all f S = filter (matches f) S"

definition countDocuments :: "query_filter \<Rightarrow> store \<Rightarrow> nat" where
  "countDocuments f S = length (filter (matches f) S)"

subsection \<open>Sorting a query\<close>

text \<open>
  \<open>.sort({[sortBy]: sortOrder})\<close>. Values of different BSON types compare by type first
  (null, number, string, ObjectId, date); a path the schema does not have reads as null
  for every document. Documents with equal keys keep their relative order.
\<close>

datatype sort_value = SNull | SNum rat | SStr string | SId nat | SDate int

fun bson_rank :: "sort_value \<Rightarrow> nat" where
  "bson_rank SNull = 0"
| "bson_rank (SNum _) = 1"
| "bson_rank (SStr _) = 2"
| "bson_rank (SId _) = 3"
| "bson_rank (SDate _) = 4"

fun sv_le :: "sort_value \<Rightarrow> sort_value \<Rightarrow> bool" where
  "sv_le (SNum a) (SNum b) = (a \<le> b)"
| "sv_le (SStr a) (SStr b) = (a \<le> b)"
| "sv_le (SId a) (SId b) = (a \<le> b)"
| "sv_le (SDate a) (SDate b) = (a \<le> b)"
| "sv_le a b = (bson_rank a \<le> bson_rank b)"

definition field_value :: "string \<Rightarrow> expense \<Rightarrow> sort_value" where
  "field_value k e =
     (if k = ''_id'' then SId (expense_id e)
      else if k = ''userId'' then SStr (userId e)
      else if k = ''title'' then SStr (title e)
      else if k = ''amount'' then SNum (amount e)
      else if k = ''category'' then SStr (category e)
      else if k = ''date'' then SDate (date e)
      else if k = ''notes'' then SStr (e_notes e)
      else if k = ''paymentMethod'' then SStr (paymentMethod e)
      else if k = ''createdAt'' then SDate (createdAt e)
      else if k = ''updatedAt'' then SDate (updatedAt e)
      else SNull)"

fun insert_by :: "('a \<Rightarrow> 'a \<Rightarrow> bool) \<Rightarrow> 'a \<Rightarrow> 'a list \<Rightarrow> 'a list" where
  "insert_by le x [] = [x]"
| "insert_by le x (y # ys) = (if le x y then x # y # ys else y # insert_by le x ys)"

definition sort_by :: "('a \<Rightarrow> 'a \<Rightarrow> bool) \<Rightarrow> 'a list \<Rightarrow> 'a list" where
  "sort_by le xs = foldr (insert_by le) xs []"

text \<open>\<open>sortOrder\<close> is \<open>1\<close> (ascending) or \<open>-1\<close> (descending).\<close>

definition sort_docs :: "string \<Rightarrow> int \<Rightarrow> expense list \<Rightarrow> expense list" where
  "sort_docs sortBy sortOrder xs =
     (if sortOrder = 1
      then sort_by (\<lambda>a b. sv_le (field_value sortBy a) (field_value sortBy b)) xs
      else sort_by (\<lambda>a b. sv_le (field_value sortBy b) (field_value sortBy a)) xs)"

section \<open>Listing expenses\<close>

text \<open>
  \<open>req.query\<close> of \<open>GET /api/expenses\<close>. A parameter is \<open>None\<close> when it is not in the query
  string. \<open>q_startDate\<close> and \<open>q_endDate\<close> hold the instant that \<open>new Date(...)\<close> yields for
  the parameter (\<open>None\<close> when it is absent or empty).
\<close>

record list_query =
  q_category :: "string option"
  q_startDate :: "int option"
  q_endDate :: "int option"
  q_sortBy :: "string option"
  q_order :: "string option"
  q_limit :: "string option"
  q_page :: "string option"

record pagination =
  currentPage :: int
  totalPages :: int
  pg_totalExpenses :: nat
  expensesPerPage :: int

record list_summary =
  sm_totalExpenses :: nat
  sm_totalAmount :: rat

record list_response =
  lr_expenses :: "expense list"
  lr_pagination :: "pagination option"
  lr_summary :: list_summary

datatype handler_error =
    NotFound  \<comment> \<open>\<open>AppError('Expense not found or unauthorized', 404)\<close>\<close>
  | ServerError  \<comment> \<open>the \<open>catch\<close> branch: \<open>AppError(error.message, 500)\<close>\<close>

text \<open>A string is truthy unless it is empty; a number unless it is \<open>0\<close> or \<open>NaN\<close>.\<close>

definition truthy_str :: "string option \<Rightarrow> bool" where
  "truthy_str s = (case s of None \<Rightarrow> False | Some v \<Rightarrow> v \<noteq> [])"

definition truthy_num :: "int option \<Rightarrow> bool" where
  "truthy_num n = (case n of None \<Rightarrow> False | Some v \<Rightarrow> v \<noteq> 0)"

definition list_filter :: "string \<Rightarrow> list_query \<Rightarrow> query_filter" where
  "list_filter uid q =
     \<lparr> f_userId = uid,
       f_category = (if truthy_str (q_category q) then q_category q else None),
       f_gte = q_startDate q,
       f_lte = q_endDate q \<rparr>"

definition pageNum :: "list_query \<Rightarrow> int option" where
  "pageNum q = (case q_page q of None \<Rightarrow> Some 1 | Some s \<Rightarrow> parseInt s)"

definition limitNum :: "list_query \<Rightarrow> int option" where
  "limitNum q = (if truthy_str (q_limit q) then parseInt (the (q_limit q)) else None)"

definition sortOrder :: "list_query \<Rightarrow> int" where
  "sortOrder q = (if q_order q = Some ''asc'' then 1 else - 1)"

definition sortBy :: "list_query \<Rightarrow> string" where
  "sortBy q = (case q_sortBy q of None \<Rightarrow> ''date'' | Some s \<Rightarrow> s)"

text \<open>
  \<open>getAllExpenses\<close>. With a truthy \<open>limitNum\<close> the query gets \<open>.skip(skip).limit(limitNum)\<close>:
  a \<open>NaN\<close> or negative skip is rejected by the database layer, which the handler reports
  as a server error; a negative limit is applied by the driver as its absolute value.
\<close>

definition getAllExpenses :: "string \<Rightarrow> list_query \<Rightarrow> store \<Rightarrow> handler_error + list_response" where
  "getAllExpenses uid q S =
     (let flt = list_filter uid q;
          sorted_docs = sort_docs (sortBy q) (sortOrder q) (find_all flt S);
          totalExpenses = countDocuments flt S
      in if truthy_num (limitNum q) then
           (let lim = the (limitNum q) in
            case pageNum q of
              None \<Rightarrow> Inl ServerError
            | Some pg \<Rightarrow>
                let skip = (pg - 1) * lim in
                if skip < 0 then Inl ServerError
                else
                  let expenses = take (nat \<bar>lim\<bar>) (drop (nat skip) sorted_docs);
                      totalAmount = reduce_sum (map amount expenses)
                  in Inr \<lparr> lr_expenses = expenses,
                           lr_pagination = Some \<lparr> currentPage = pg,
                             totalPages = \<lceil>(of_nat totalExpenses :: rat) / of_int lim\<rceil>,
                             pg_totalExpenses = totalExpenses,
                             expensesPerPage = lim \<rparr>,
                           lr_summary = \<lparr> sm_totalExpenses = totalExpenses,
                             sm_totalAmount = toFixed2 totalAmount \<rparr> \<rparr>)
         else
           (let expenses = sorted_docs;
                totalAmount = reduce_sum (map amount expenses)
            in Inr \<lparr> lr_expenses = expenses,
                     lr_pagination = None,
                     lr_summary = \<lparr> sm_totalExpenses = totalExpenses,
                       sm_totalAmount = toFixed2 totalAmount \<rparr> \<rparr>))"

section \<open>Reading, updating and deleting one expense\<close>

text \<open>\<open>Expense.findOne({ _id: id, userId: uid })\<close>: the first document with that id and owner.\<close>

definition findOne :: "nat \<Rightarrow> string \<Rightarrow> store \<Rightarrow> expense option" where
  "findOne i uid S = find (\<lambda>e. expense_id e = i \<and> userId e = uid) S"

definition getExpenseById :: "string \<Rightarrow> nat \<Rightarrow> store \<Rightarrow> handler_error + expense" where
  "getExpenseById uid i S =
     (case findOne i uid S of None \<Rightarrow> Inl NotFound | Some e \<Rightarrow> Inr e)"

text \<open>
  The request body of an update is an object: a list of keys with their values. It is the
  body as \<open>validateUpdateExpense\<close> leaves it, where an allow-listed key holds a value of the
  type of its schema path; assigning a value of another type is a cast that the model does
  not follow and treats as an error that makes \<open>save()\<close> reject.
\<close>

datatype js_value = JStr string | JNum rat | JDate int | JNull

definition trim :: "string \<Rightarrow> string" where
  "trim s = rev (dropWhile is_space (rev (dropWhile is_space s)))"

definition allowedUpdates :: "string list" where
  "allowedUpdates = [''title'', ''amount'', ''category'', ''date'', ''notes'', ''paymentMethod'']"

text \<open>\<open>expense[key] = value\<close> for an allow-listed key (string paths with \<open>trim: true\<close> trim).\<close>

definition set_path :: "string \<Rightarrow> js_value \<Rightarrow> expense \<Rightarrow> expense option" where
  "set_path key v e =
     (if key = ''title'' then (case v of JStr s \<Rightarrow> Some (e\<lparr>title := trim s\<rparr>) | _ \<Rightarrow> None)
      else if key = ''amount'' then (case v of JNum x \<Rightarrow> Some (e\<lparr>amount := x\<rparr>) | _ \<Rightarrow> None)
      else if key = ''category'' then (case v of JStr s \<Rightarrow> Some (e\<lparr>category := s\<rparr>) | _ \<Rightarrow> None)
      else if key = ''date'' then (case v of JDate d \<Rightarrow> Some (e\<lparr>date := d\<rparr>) | _ \<Rightarrow> None)
      else if key = ''notes'' then (case v of JStr s \<Rightarrow> Some (e\<lparr>e_notes := trim s\<rparr>) | _ \<Rightarrow> None)
      else if key = ''paymentMethod'' then
        (case v of JStr s \<Rightarrow> Some (e\<lparr>paymentMethod := s\<rparr>) | _ \<Rightarrow> None)
      else Some e)"

text \<open>\<open>Object.keys(updates).forEach(key => { if (allowedUpdates.includes(key)) ... })\<close>.\<close>

fun apply_updates :: "(string \<times> js_value) list \<Rightarrow> expense \<Rightarrow> expense option" where
  "apply_updates [] e = Some e"
| "apply_updates ((key, v) # kvs) e =
     (if key \<in> set allowedUpdates
      then (case set_path key v e of None \<Rightarrow> None | Some e' \<Rightarrow> apply_updates kvs e')
      else apply_updates kvs e)"

text \<open>The validators of \<open>expenseSchema\<close>, which \<open>save()\<close> and \<open>create()\<close> run.\<close>

definition categories :: "string list" where
  "categories = [''Food'', ''Transportation'', ''Entertainment'', ''Healthcare'', ''Shopping'',
     ''Bills'', ''Education'', ''Travel'', ''Personal'', ''Other'']"

definition paymentMethods :: "string list" where
  "paymentMethods = [''Cash'', ''Credit Card'', ''Debit Card'', ''UPI'', ''Net Banking'', ''Other'']"

definition schema_valid :: "expense \<Rightarrow> bool" where
  "schema_valid e =
     (userId e \<noteq> [] \<and> title e \<noteq> [] \<and> length (title e) \<le> 200
      \<and> 1 / 100 \<le> amount e \<and> 0 < amount e
      \<and> category e \<in> set categories
      \<and> length (e_notes e) \<le> 500
      \<and> paymentMethod e \<in> set paymentMethods)"

fun replaceOne :: "nat \<Rightarrow> expense \<Rightarrow> store \<Rightarrow> store" where
  "replaceOne i d [] = []"
| "replaceOne i d (e # es) = (if expense_id e = i then d # es else e # replaceOne i d es)"

text \<open>
  \<open>expense.save()\<close> on a loaded document \<open>old\<close> changed into \<open>doc\<close>: validation, then, when a
  path was modified, the write of the document under its \<open>_id\<close> with \<open>updatedAt\<close> set to the
  current time (\<open>timestamps: true\<close>).
\<close>

definition save :: "int \<Rightarrow> expense \<Rightarrow> expense \<Rightarrow> store \<Rightarrow> handler_error + (expense \<times> store)" where
  "save now old doc S =
     (if \<not> schema_valid doc then Inl ServerError
      else if doc = old then Inr (doc, S)
      else (let doc' = doc\<lparr>updatedAt := now\<rparr>
            in Inr (doc', replaceOne (expense_id doc') doc' S)))"

definition updateExpense ::
  "int \<Rightarrow> string \<Rightarrow> nat \<Rightarrow> (string \<times> js_value) list \<Rightarrow> store \<Rightarrow> handler_error + (expense \<times> store)" where
  "updateExpense now uid i updates S =
     (case findOne i uid S of
        None \<Rightarrow> Inl NotFound
      | Some e \<Rightarrow>
          (case apply_updates updates e of
             None \<Rightarrow> Inl ServerError
           | Some doc \<Rightarrow> save now e doc S))"

text \<open>\<open>Expense.findOneAndDelete({ _id: id, userId: uid })\<close> removes the first match.\<close>

fun deleteOne :: "(expense \<Rightarrow> bool) \<Rightarrow> store \<Rightarrow> store" where
  "deleteOne P [] = []"
| "deleteOne P (e # es) = (if P e then es else e # deleteOne P es)"

definition deleteExpense :: "string \<Rightarrow> nat \<Rightarrow> store \<Rightarrow> handler_error + (expense \<times> store)" where
  "deleteExpense uid i S =
     (case findOne i uid S of
        None \<Rightarrow> Inl NotFound
      | Some e \<Rightarrow> Inr (e, deleteOne (\<lambda>e. expense_id e = i \<and> userId e = uid) S))"

text \<open>
  \<open>createExpense\<close>: \<open>new_id\<close> is the ObjectId the driver generates, \<open>now\<close> the current time.
\<close>

record create_body =
  cb_title :: "string option"
  cb_amount :: "rat option"
  cb_category :: "string option"
  cb_date :: "int option"
  cb_notes :: "string option"
  cb_paymentMethod :: "string option"

definition createExpense ::
  "nat \<Rightarrow> int \<Rightarrow> string \<Rightarrow> create_body \<Rightarrow> store \<Rightarrow> handler_error + (expense \<times> store)" where
  "createExpense new_id now uid b S =
     (case (cb_title b, cb_amount b, cb_category b) of
        (Some t, Some a, Some c) \<Rightarrow>
          (let doc = \<lparr> expense_id = new_id, userId = uid, title = trim t, amount = a,
                 category = c,
                 date = (case cb_date b of None \<Rightarrow> now | Some d \<Rightarrow> d),
                 e_notes = (if truthy_str (cb_notes b) then trim (the (cb_notes b)) else []),
                 paymentMethod =
                   (if truthy_str (cb_paymentMethod b) then the (cb_paymentMethod b) else ''Other''),
                 createdAt = now, updatedAt = now \<rparr>
           in if schema_valid doc then Inr (doc, S @ [doc]) else Inl ServerError)
      | _ \<Rightarrow> Inl ServerError)"

section \<open>Dates\<close>

text \<open>
  The ECMAScript date algorithms that the controllers rely on. \<open>new Date(year, month, day,
  h, m, s)\<close> is a local time; \<open>tza\<close> is the offset of the server's time zone from UTC in
  milliseconds, taken as constant.
\<close>

definition InLeapYear :: "int \<Rightarrow> bool" where
  "InLeapYear y = ((y mod 4 = 0 \<and> y mod 100 \<noteq> 0) \<or> y mod 400 = 0)"

definition DayFromYear :: "int \<Rightarrow> int" where
  "DayFromYear y = 365 * (y - 1970) + (y - 1969) div 4 - (y - 1901) div 100 + (y - 1601) div 400"

definition month_start :: "int \<Rightarrow> bool \<Rightarrow> int" where
  "month_start m leap =
     [0, 31, 59, 90, 120, 151, 181, 212, 243, 273, 304, 334] ! nat m
       + (if leap \<and> 2 \<le> m then 1 else 0)"

definition MakeDay :: "int \<Rightarrow> int \<Rightarrow> int \<Rightarrow> int" where
  "MakeDay year month dt =
     (let ym = year + month div 12; mn = month mod 12
      in DayFromYear ym + month_start mn (InLeapYear ym) + dt - 1)"

definition MakeTime :: "int \<Rightarrow> int \<Rightarrow> int \<Rightarrow> int \<Rightarrow> int" where
  "MakeTime h m s ms = h * 3600000 + m * 60000 + s * 1000 + ms"

definition MakeDate :: "int \<Rightarrow> int \<Rightarrow> int" where
  "MakeDate day time = day * 86400000 + time"

definition new_Date :: "int \<Rightarrow> int \<Rightarrow> int \<Rightarrow> int \<Rightarrow> int \<Rightarrow> int \<Rightarrow> int \<Rightarrow> int" where
  "new_Date tza year month dt h m s =
     (let yr = (if 0 \<le> year \<and> year \<le> 99 then 1900 + year else year)
      in MakeDate (MakeDay yr month dt) (MakeTime h m s 0) - tza)"

text \<open>
  From an instant back to the calendar: \<open>YearFromDay d\<close> is the year \<open>y\<close> with
  \<open>DayFromYear y \<le> d < DayFromYear (y + 1)\<close>, found from an estimate that is off by one at most.
\<close>

definition Day :: "int \<Rightarrow> int" where
  "Day t = t div 86400000"

definition YearFromDay :: "int \<Rightarrow> int" where
  "YearFromDay d =
     (let y = 1970 + (d * 10000) div 3652425
      in if DayFromYear (y + 1) \<le> d then y + 1
         else if DayFromYear y \<le> d then y
         else y - 1)"

definition YearFromTime :: "int \<Rightarrow> int" where
  "YearFromTime t = YearFromDay (Day t)"

definition DayWithinYear :: "int \<Rightarrow> int" where
  "DayWithinYear t = Day t - DayFromYear (YearFromTime t)"

definition MonthFromTime :: "int \<Rightarrow> int" where
  "MonthFromTime t =
     (let leap = InLeapYear (YearFromTime t); d = DayWithinYear t
      in int (length (filter (\<lambda>m. month_start m leap \<le> d) [1, 2, 3, 4, 5, 6, 7, 8, 9, 10, 11])))"

definition DateFromTime :: "int \<Rightarrow> int" where
  "DateFromTime t =
     DayWithinYear t - month_start (MonthFromTime t) (InLeapYear (YearFromTime t)) + 1"

text \<open>\<open>d.getDate()\<close>: the day of the month in local time.\<close>

definition getDate :: "int \<Rightarrow> int \<Rightarrow> int" where
  "getDate tza t = DateFromTime (t + tza)"

definition digit_char :: "int \<Rightarrow> char" where
  "digit_char d = char_of (48 + d)"

text \<open>The decimal digits of \<open>n\<close>, padded with zeros to the width \<open>w\<close>.\<close>

fun pad :: "nat \<Rightarrow> int \<Rightarrow> string" where
  "pad 0 n = []"
| "pad (Suc w) n = digit_char ((n div 10 ^ w) mod 10) # pad w (n mod 10 ^ w)"

text \<open>
  \<open>new Date(d).toISOString().slice(0, 7)\<close>: the UTC year and month. Years outside
  \<open>0 .. 9999\<close> are printed with a sign and six digits, which fill the seven characters.
\<close>

definition monthKey :: "int \<Rightarrow> string" where
  "monthKey t =
     (let y = YearFromTime t; m = MonthFromTime t
      in if 0 \<le> y \<and> y \<le> 9999 then pad 4 y @ ''-'' @ pad 2 (m + 1)
         else (if y < 0 then ''-'' else ''+'') @ pad 6 \<bar>y\<bar>)"

section \<open>Aggregation\<close>

text \<open>
  \<open>$group\<close> with \<open>$sum: '$amount'\<close> and \<open>$sum: 1\<close>, and the \<open>reduce\<close> into an object keyed by
  month of the category report: one accumulator per key, in order of first appearance.
\<close>

record group =
  g_id :: string
  g_total :: rat
  g_count :: nat

fun group_add :: "string \<Rightarrow> rat \<Rightarrow> group list \<Rightarrow> group list" where
  "group_add k a [] = [\<lparr> g_id = k, g_total = 0 + a, g_count = 0 + 1 \<rparr>]"
| "group_add k a (g # gs) =
     (if g_id g = k then g\<lparr> g_total := g_total g + a, g_count := g_count g + 1 \<rparr> # gs
      else g # group_add k a gs)"

definition group_by :: "(expense \<Rightarrow> string) \<Rightarrow> expense list \<Rightarrow> group list" where
  "group_by key xs = foldl (\<lambda>acc e. group_add (key e) (amount e) acc) [] xs"

text \<open>\<open>{ $sort: { totalAmount: -1 } }\<close>.\<close>

definition sort_desc_total :: "group list \<Rightarrow> group list" where
  "sort_desc_total gs = sort_by (\<lambda>a b. g_total b \<le> g_total a) gs"

section \<open>Monthly report\<close>

record category_share =
  cs_category :: string
  cs_amount :: rat
  cs_count :: nat
  cs_percentage :: "rat option"

record monthly_summary =
  ms_month :: int
  ms_year :: int
  ms_totalExpenses :: rat
  ms_totalTransactions :: nat
  ms_categoryBreakdown :: "category_share list"

definition month_match :: "int \<Rightarrow> string \<Rightarrow> int \<Rightarrow> int \<Rightarrow> expense \<Rightarrow> bool" where
  "month_match tza uid month year e =
     (let startDate = new_Date tza year (month - 1) 1 0 0 0;
          endDate = new_Date tza year month 0 23 59 59
      in userId e = uid \<and> startDate \<le> date e \<and> date e \<le> endDate)"

definition monthly_groups :: "int \<Rightarrow> string \<Rightarrow> int \<Rightarrow> int \<Rightarrow> store \<Rightarrow> group list" where
  "monthly_groups tza uid month year S =
     sort_desc_total (group_by category (filter (month_match tza uid month year) S))"

definition getMonthlySummary :: "int \<Rightarrow> string \<Rightarrow> int \<Rightarrow> int \<Rightarrow> store \<Rightarrow> monthly_summary" where
  "getMonthlySummary tza uid month year S =
     (let summary = monthly_groups tza uid month year S;
          totalExpenses = reduce_sum (map g_total summary);
          totalTransactions = foldl (\<lambda>sum item. sum + g_count item) 0 summary
      in \<lparr> ms_month = month, ms_year = year,
           ms_totalExpenses = toFixed2 totalExpenses,
           ms_totalTransactions = totalTransactions,
           ms_categoryBreakdown =
             map (\<lambda>item. \<lparr> cs_category = g_id item,
                            cs_amount = toFixed2 (g_total item),
                            cs_count = g_count item,
                            cs_percentage =
                              map_option (\<lambda>r. toFixed2 (r * 100))
                                (js_div (g_total item) totalExpenses) \<rparr>) summary \<rparr>)"

text \<open>\<open>.select('title amount category date paymentMethod')\<close> keeps \<open>_id\<close> and these paths.\<close>

record expense_brief =
  eb_id :: nat
  eb_title :: string
  eb_amount :: rat
  eb_category :: string
  eb_date :: int
  eb_paymentMethod :: string

definition select_brief :: "expense \<Rightarrow> expense_brief" where
  "select_brief e = \<lparr> eb_id = expense_id e, eb_title = title e, eb_amount = amount e,
     eb_category = category e, eb_date = date e, eb_paymentMethod = paymentMethod e \<rparr>"

record monthly_report =
  mr_summary :: monthly_summary
  mr_dailyAverage :: "rat option"
  mr_daysInMonth :: int
  mr_expenses :: "expense_brief list"

definition getMonthlyReport :: "int \<Rightarrow> string \<Rightarrow> int \<Rightarrow> int \<Rightarrow> store \<Rightarrow> monthly_report" where
  "getMonthlyReport tza uid month year S =
     (let summary = getMonthlySummary tza uid month year S;
          expenses = map select_brief
            (sort_docs ''date'' (- 1) (filter (month_match tza uid month year) S));
          daysInMonth = getDate tza (new_Date tza year month 0 0 0 0);
          dailyAverage = js_div (ms_totalExpenses summary) (of_int daysInMonth)
      in \<lparr> mr_summary = summary,
           mr_dailyAverage = map_option toFixed2 dailyAverage,
           mr_daysInMonth = daysInMonth,
           mr_expenses = expenses \<rparr>)"

section \<open>Category report\<close>

record category_query =
  cq_category :: string
  cq_startDate :: "int option"
  cq_endDate :: "int option"

record statistics =
  st_totalExpenses :: nat
  st_totalAmount :: rat
  st_averageAmount :: rat
  st_maxExpense :: rat
  st_minExpense :: rat

record trend_item =
  tr_month :: string
  tr_total :: rat
  tr_count :: nat
  tr_average :: "rat option"

record category_report =
  cr_category :: string
  cr_statistics :: statistics
  cr_monthlyTrend :: "trend_item list"
  cr_expenses :: "expense list"

text \<open>\<open>Math.max(...xs)\<close> and \<open>Math.min(...xs)\<close>; \<open>None\<close> is the infinity they give for no argument.\<close>

fun Math_max :: "rat list \<Rightarrow> rat option" where
  "Math_max [] = None"
| "Math_max (x # xs) = Some (foldl max x xs)"

fun Math_min :: "rat list \<Rightarrow> rat option" where
  "Math_min [] = None"
| "Math_min (x # xs) = Some (foldl min x xs)"

definition category_filter :: "string \<Rightarrow> category_query \<Rightarrow> query_filter" where
  "category_filter uid q =
     \<lparr> f_userId = uid, f_category = Some (cq_category q),
       f_gte = cq_startDate q, f_lte = cq_endDate q \<rparr>"

definition monthlyTrend :: "expense list \<Rightarrow> group list" where
  "monthlyTrend expenses = group_by (\<lambda>e. monthKey (date e)) expenses"

definition trendData :: "expense list \<Rightarrow> trend_item list" where
  "trendData expenses =
     map (\<lambda>item. \<lparr> tr_month = g_id item,
                    tr_total = toFixed2 (g_total item),
                    tr_count = g_count item,
                    tr_average = map_option toFixed2 (js_div (g_total item) (of_nat (g_count item))) \<rparr>)
       (sort_by (\<lambda>a b. g_id a \<le> g_id b) (monthlyTrend expenses))"

definition getCategoryReport :: "string \<Rightarrow> category_query \<Rightarrow> store \<Rightarrow> category_report" where
  "getCategoryReport uid q S =
     (let expenses = sort_docs ''date'' (- 1) (find_all (category_filter uid q) S);
          totalAmount = reduce_sum (map amount expenses);
          averageAmount = (if 0 < length expenses then totalAmount / of_nat (length expenses) else 0);
          maxExpense = (if 0 < length expenses
                        then (case Math_max (map amount expenses) of Some m \<Rightarrow> m | None \<Rightarrow> 0)
                        else 0);
          minExpense = (if 0 < length expenses
                        then (case Math_min (map amount expenses) of Some m \<Rightarrow> m | None \<Rightarrow> 0)
                        else 0)
      in \<lparr> cr_category = cq_category q,
           cr_statistics = \<lparr> st_totalExpenses = length expenses,
             st_totalAmount = toFixed2 totalAmount,
             st_averageAmount = toFixed2 averageAmount,
             st_maxExpense = toFixed2 maxExpense,
             st_minExpense = toFixed2 minExpense \<rparr>,
           cr_monthlyTrend = trendData expenses,
           cr_expenses = expenses \<rparr>)"

section \<open>Overall statistics\<close>










section \<open>Quantities the results are stated with\<close>

text \<open>
  These are not part of the program: they say, in terms of lists and sums, what the
  handlers are compared with.
\<close>

text \<open>The length of month \<open>m\<close> (\<open>1 .. 12\<close>) of the calendar, for comparison with \<open>MakeDay\<close>.\<close>

definition DaysInMonth :: "int \<Rightarrow> bool \<Rightarrow> int" where
  "DaysInMonth m leap =
     [31, if leap then 29 else 28, 31, 30, 31, 30, 31, 31, 30, 31, 30, 31] ! nat (m - 1)"

text \<open>The sum of the amounts, and the number, of the records of a list whose key is \<open>k\<close>.\<close>

definition group_sum :: "(expense \<Rightarrow> string) \<Rightarrow> expense list \<Rightarrow> string \<Rightarrow> rat" where
  "group_sum key xs k = sum_list (map amount (filter (\<lambda>e. key e = k) xs))"


text \<open>
  The records of a user in the collection, the records of everyone else, and what a user
  can observe of an update or a delete: the response and the user's own records afterwards.
\<close>

definition owned :: "string \<Rightarrow> store \<Rightarrow> store" where
  "owned uid S = filter (\<lambda>e. userId e = uid) S"

definition others :: "string \<Rightarrow> store \<Rightarrow> store" where
  "others uid S = filter (\<lambda>e. userId e \<noteq> uid) S"

definition observed :: "string \<Rightarrow> handler_error + (expense \<times> store) \<Rightarrow> handler_error + (expense \<times> store)" where
  "observed uid res = map_sum id (\<lambda>(e, T). (e, owned uid T)) res"

section \<open>Sample data\<close>

text \<open>
  A small collection with two owners (the expenses of \<open>U\<close> are those of the scenario
  Food 100 on 2025-01-05, Food 50 on 2025-01-20, Transportation 30 on 2025-01-10, at noon
  UTC), and queries without filters.
\<close>

definition sample_expense :: "nat \<Rightarrow> string \<Rightarrow> string \<Rightarrow> rat \<Rightarrow> int \<Rightarrow> expense" where
  "sample_expense i u c a d = \<lparr> expense_id = i, userId = u, title = ''t'', amount = a, category = c,
     date = d, e_notes = [], paymentMethod = ''Cash'', createdAt = d, updatedAt = d \<rparr>"

definition sample_store :: store where
  "sample_store =
     [sample_expense 1 ''U'' ''Food'' 100 1736078400000,
      sample_expense 2 ''U'' ''Food'' 50 1737374400000,
      sample_expense 3 ''U'' ''Transportation'' 30 1736510400000,
      sample_expense 4 ''V'' ''Food'' 7 1736510400000]"

definition sample_query :: "string option \<Rightarrow> string option \<Rightarrow> list_query" where
  "sample_query lm pg = \<lparr> q_category = None, q_startDate = None, q_endDate = None,
     q_sortBy = None, q_order = None, q_limit = lm, q_page = pg \<rparr>"



text \<open>An expense of user \<open>U\<close> dated 2025-01-31 23:59:59.500, and one of 0.125 dated 2025-01-05.\<close>

definition late_expense :: expense where
  "late_expense = sample_expense 5 ''U'' ''Food'' 12 1738367999500"



text \<open>
  A collection in which user \<open>U\<close> has the records of \<open>sample_store\<close> and the other users
  have different ones, and a request body with allow-listed and other keys.
\<close>

definition other_store :: store where
  "other_store =
     [sample_expense 9 ''V'' ''Bills'' 40 1736078400000,
      sample_expense 1 ''U'' ''Food'' 100 1736078400000,
      sample_expense 2 ''U'' ''Food'' 50 1737374400000,
      sample_expense 8 ''W'' ''Travel'' 900 1737374400000,
      sample_expense 3 ''U'' ''Transportation'' 30 1736510400000]"

definition sample_body :: "(string \<times> js_value) list" where
  "sample_body = [(''title'', JStr ''  Dinner ''), (''userId'', JStr ''V''),
     (''createdAt'', JDate 7), (''_id'', JNum 4), (''amount'', JNum 3)]"

section \<open>Basic facts\<close>

lemma reduce_sum_shift: "foldl (\<lambda>sum x. sum + x) a xs = a + sum_list xs" for a :: rat
  by (induction xs arbitrary: a) (simp_all add: add.assoc)

lemma reduce_sum_eq: "reduce_sum xs = sum_list xs"
  by (simp add: reduce_sum_def reduce_sum_shift)

lemma mset_insert_by: "mset (insert_by le x xs) = add_mset x (mset xs)"
  by (induction xs) simp_all

lemma mset_sort_by: "mset (sort_by le xs) = mset xs"
  unfolding sort_by_def by (induction xs) (simp_all add: mset_insert_by)

lemma mset_sort_docs: "mset (sort_docs k ord xs) = mset xs"
  by (simp add: sort_docs_def mset_sort_by)

lemma length_sort_docs: "length (sort_docs k ord xs) = length xs"
  using mset_sort_docs [of k ord xs] by (metis size_mset)

lemma set_sort_docs: "set (sort_docs k ord xs) = set xs"
  using mset_sort_docs [of k ord xs] by (metis set_mset_mset)

section \<open>Listing: pagination and summary\<close>

lemma ceil_cases: 
  assumes P: "0 < P"
  shows "\<lceil>(of_nat N :: rat) / of_int P\<rceil> = (if int N mod P = 0 then int N div P else int N div P + 1)"
proof -
  have "\<lceil>(of_nat N :: rat) / of_int P\<rceil> = \<lceil>(of_int (int N) :: rat) / of_int P\<rceil>" by simp
  also have "\<dots> = - (- int N div P)" by (rule ceiling_divide_eq_div)
  also have "\<dots> = (if int N mod P = 0 then int N div P else int N div P + 1)"
    using P by (simp add: zdiv_zminus1_eq_if)
  finally show ?thesis .
qed

lemma last_page:
  assumes P: "0 < (P::int)" and kdef: "k = (if int N mod P = 0 then int N div P else int N div P + 1)"
  shows "int N - (k - 1) * P = (if int N mod P = 0 then P else int N mod P)"
proof (cases "int N mod P = 0")
  case True
  then have "k = int N div P" using kdef by simp
  moreover have "int N div P * P = int N" using True by (simp add: mod_0_imp_dvd)
  ultimately have "int N - (k - 1) * P = P" by (simp add: algebra_simps)
  then show ?thesis using True by simp
next
  case False
  then have "k - 1 = int N div P" using kdef by simp
  moreover have "int N - int N div P * P = int N mod P" by (simp add: minus_div_mult_eq_mod)
  ultimately show ?thesis using False by simp
qed

lemma length_page:
  "0 \<le> sk \<Longrightarrow> 0 < P \<Longrightarrow>
   int (length (take (nat P) (drop (nat sk) xs))) = min P (max 0 (int (length xs) - sk))"
  by auto

lemma parseInt_nonempty: "parseInt s = Some n \<Longrightarrow> s \<noteq> []"
  by (auto simp: parseInt_def)

lemma getAllExpenses_paginated:
  assumes lim: "q_limit q = Some ls" "parseInt ls = Some P" "0 < P"
    and pg: "pageNum q = Some k" "1 \<le> k"
  shows "getAllExpenses uid q S =
     Inr \<lparr> lr_expenses = take (nat P) (drop (nat ((k - 1) * P))
               (sort_docs (sortBy q) (sortOrder q) (find_all (list_filter uid q) S))),
           lr_pagination = Some \<lparr> currentPage = k,
             totalPages = \<lceil>(of_nat (length (find_all (list_filter uid q) S)) :: rat) / of_int P\<rceil>,
             pg_totalExpenses = length (find_all (list_filter uid q) S),
             expensesPerPage = P \<rparr>,
           lr_summary = \<lparr> sm_totalExpenses = length (find_all (list_filter uid q) S),
             sm_totalAmount = toFixed2 (sum_list (map amount (take (nat P) (drop (nat ((k - 1) * P))
               (sort_docs (sortBy q) (sortOrder q) (find_all (list_filter uid q) S)))))) \<rparr> \<rparr>"
proof -
  have ne: "ls \<noteq> []" using lim(2) by (rule parseInt_nonempty)
  have ln: "limitNum q = Some P" using lim ne by (simp add: limitNum_def truthy_str_def)
  have tr: "truthy_num (limitNum q)" using ln lim(3) by (simp add: truthy_num_def)
  have sk: "\<not> (k - 1) * P < 0" using lim(3) pg(2) by (simp add: not_less)
  have ab: "\<bar>P\<bar> = P" using lim(3) by simp
  show ?thesis
    unfolding getAllExpenses_def Let_def
    using tr ln pg(1) sk ab by (simp add: countDocuments_def find_all_def reduce_sum_eq)
qed

lemma getAllExpenses_unpaginated:
  assumes "q_limit q = None"
  shows "getAllExpenses uid q S =
     Inr \<lparr> lr_expenses = sort_docs (sortBy q) (sortOrder q) (find_all (list_filter uid q) S),
           lr_pagination = None,
           lr_summary = \<lparr> sm_totalExpenses = length (find_all (list_filter uid q) S),
             sm_totalAmount = toFixed2 (sum_list (map amount (find_all (list_filter uid q) S))) \<rparr> \<rparr>"
proof -
  have ln: "limitNum q = None" using assms by (simp add: limitNum_def truthy_str_def)
  have "sum_list (map amount (sort_docs (sortBy q) (sortOrder q) (find_all (list_filter uid q) S)))
        = sum_list (map amount (find_all (list_filter uid q) S))"
    using mset_sort_docs [of "sortBy q" "sortOrder q" "find_all (list_filter uid q) S"]
    by (metis mset_map sum_mset_sum_list)
  then show ?thesis
    unfolding getAllExpenses_def Let_def
    using ln by (simp add: truthy_num_def countDocuments_def find_all_def reduce_sum_eq)
qed

text \<open>
  Claim C4. With \<open>N\<close> matching records and a page size \<open>P > 0\<close>, the listing of page
  \<open>k \<ge> 1\<close> reports \<open>totalPages = \<lceil>N / P\<rceil>\<close>, skips \<open>(k - 1) * P\<close> records of the
  sorted matching records and returns at most \<open>P\<close> of them; on page \<open>\<lceil>N / P\<rceil>\<close> it returns
  \<open>N mod P\<close> records, or \<open>P\<close> when \<open>N mod P = 0\<close>. Without a \<open>limit\<close> parameter all
  matching records are returned and the pagination block is null.
\<close>

theorem list_pagination:
  "(q_limit q = Some ls \<and> parseInt ls = Some P \<and> 0 < P \<and> pageNum q = Some k \<and> 1 \<le> k \<longrightarrow>
      (\<exists>r pg. getAllExpenses uid q S = Inr r \<and> lr_pagination r = Some pg
         \<and> totalPages pg = \<lceil>(of_nat (length (find_all (list_filter uid q) S)) :: rat) / of_int P\<rceil>
         \<and> lr_expenses r = take (nat P) (drop (nat ((k - 1) * P))
              (sort_docs (sortBy q) (sortOrder q) (find_all (list_filter uid q) S)))
         \<and> int (length (lr_expenses r)) \<le> P
         \<and> (k = totalPages pg \<longrightarrow>
              int (length (lr_expenses r)) =
                (if int (length (find_all (list_filter uid q) S)) mod P = 0 then P
                 else int (length (find_all (list_filter uid q) S)) mod P))))
   \<and> (q_limit q = None \<longrightarrow>
      (\<exists>r. getAllExpenses uid q S = Inr r \<and> lr_pagination r = None
         \<and> lr_expenses r = sort_docs (sortBy q) (sortOrder q) (find_all (list_filter uid q) S)
         \<and> mset (lr_expenses r) = mset (find_all (list_filter uid q) S)))"
proof (intro conjI impI)
  assume h: "q_limit q = Some ls \<and> parseInt ls = Some P \<and> 0 < P \<and> pageNum q = Some k \<and> 1 \<le> k"
  let ?all = "sort_docs (sortBy q) (sortOrder q) (find_all (list_filter uid q) S)"
  let ?N = "length (find_all (list_filter uid q) S)"
  let ?page = "take (nat P) (drop (nat ((k - 1) * P)) ?all)"
  from h have P: "0 < P" and k: "1 \<le> k" by simp_all
  have eq: "getAllExpenses uid q S =
     Inr \<lparr> lr_expenses = ?page,
           lr_pagination = Some \<lparr> currentPage = k,
             totalPages = \<lceil>(of_nat ?N :: rat) / of_int P\<rceil>,
             pg_totalExpenses = ?N, expensesPerPage = P \<rparr>,
           lr_summary = \<lparr> sm_totalExpenses = ?N,
             sm_totalAmount = toFixed2 (sum_list (map amount ?page)) \<rparr> \<rparr>"
    using h getAllExpenses_paginated [of q ls P k uid S] by simp
  have sk: "0 \<le> (k - 1) * P" using P k by simp
  have len: "int (length ?page) = min P (max 0 (int ?N - (k - 1) * P))"
    using length_page [OF sk P, of ?all] by (simp add: length_sort_docs)
  have le: "int (length ?page) \<le> P" using len by simp
  have last: "int (length ?page) = (if int ?N mod P = 0 then P else int ?N mod P)"
    if kk: "k = \<lceil>(of_nat ?N :: rat) / of_int P\<rceil>"
  proof -
    have kdef: "k = (if int ?N mod P = 0 then int ?N div P else int ?N div P + 1)"
      using kk ceil_cases [OF P, of ?N] by simp
    have r: "int ?N - (k - 1) * P = (if int ?N mod P = 0 then P else int ?N mod P)"
      using last_page [OF P kdef] .
    have "0 \<le> int ?N mod P" "int ?N mod P < P" using P by simp_all
    then show ?thesis using len r P by (simp split: if_splits)
  qed
  show "\<exists>r pg. getAllExpenses uid q S = Inr r \<and> lr_pagination r = Some pg
         \<and> totalPages pg = \<lceil>(of_nat ?N :: rat) / of_int P\<rceil>
         \<and> lr_expenses r = ?page
         \<and> int (length (lr_expenses r)) \<le> P
         \<and> (k = totalPages pg \<longrightarrow>
              int (length (lr_expenses r)) = (if int ?N mod P = 0 then P else int ?N mod P))"
    using eq le last by simp
next
  assume h: "q_limit q = None"
  show "\<exists>r. getAllExpenses uid q S = Inr r \<and> lr_pagination r = None
         \<and> lr_expenses r = sort_docs (sortBy q) (sortOrder q) (find_all (list_filter uid q) S)
         \<and> mset (lr_expenses r) = mset (find_all (list_filter uid q) S)"
    using getAllExpenses_unpaginated [OF h, of uid S] by (simp add: mset_sort_docs)
qed


theorem list_pagination_witness:
  "(\<exists>r pg. getAllExpenses ''U'' (sample_query (Some ''2'') (Some ''2'')) sample_store = Inr r
        \<and> lr_pagination r = Some pg \<and> totalPages pg = 2 \<and> length (lr_expenses r) = 1)
   \<and> (\<exists>r. getAllExpenses ''U'' (sample_query None None) sample_store = Inr r
        \<and> lr_pagination r = None \<and> length (lr_expenses r) = 3)"
proof -
  let ?q = "sample_query (Some ''2'') (Some ''2'')"
  let ?qn = "sample_query None None"
  have h1: "q_limit ?q = Some ''2''" by code_simp
  have h2: "parseInt ''2'' = Some 2" by code_simp
  have h3: "pageNum ?q = Some 2" by code_simp
  have h: "q_limit ?q = Some ''2'' \<and> parseInt ''2'' = Some 2 \<and> (0::int) < 2
           \<and> pageNum ?q = Some 2 \<and> (1::int) \<le> 2"
    using h1 h2 h3 by simp
  have n: "length (find_all (list_filter ''U'' ?q) sample_store) = 3" by code_simp
  have h0: "q_limit ?qn = None" by code_simp
  have n0: "length (find_all (list_filter ''U'' ?qn) sample_store) = 3" by code_simp
  have c: "\<lceil>(3::rat) / 2\<rceil> = 2" by code_simp
  from list_pagination [of ?q "''2''" 2 2 "''U''" sample_store] h
  obtain r pg where r: "getAllExpenses ''U'' ?q sample_store = Inr r" "lr_pagination r = Some pg"
      "totalPages pg = \<lceil>(of_nat (length (find_all (list_filter ''U'' ?q) sample_store)) :: rat) / of_int 2\<rceil>"
      "2 = totalPages pg \<longrightarrow> int (length (lr_expenses r)) =
          (if int (length (find_all (list_filter ''U'' ?q) sample_store)) mod 2 = 0 then 2
           else int (length (find_all (list_filter ''U'' ?q) sample_store)) mod 2)"
    by blast
  have tp: "totalPages pg = 2" using r(3) n c by simp
  have l1: "length (lr_expenses r) = 1" using r(4) n tp by simp
  from list_pagination [of ?qn "''2''" 2 2 "''U''" sample_store] h0
  obtain rn where rn: "getAllExpenses ''U'' ?qn sample_store = Inr rn" "lr_pagination rn = None"
      "mset (lr_expenses rn) = mset (find_all (list_filter ''U'' ?qn) sample_store)"
    by blast
  have l3: "length (lr_expenses rn) = 3"
    using rn(3) n0 by (metis size_mset)
  show ?thesis using r(1,2) tp l1 rn(1,2) l3 by blast
qed

text \<open>
  Claim C1. The summary of a listing is said to give the total amount of the whole filtered
  set. On a paginated request it does not: \<open>totalAmount\<close> is reduced from the page that
  was fetched, while \<open>totalExpenses\<close> next to it counts the whole filtered set. For user
  \<open>U\<close> with three expenses of \<open>100\<close>, \<open>50\<close> and \<open>30\<close>, \<open>limit=2&page=1\<close> reports
  \<open>totalExpenses = 3\<close> and \<open>totalAmount = 80\<close>, where the filtered set sums to \<open>180\<close>.
\<close>

theorem list_summary_sums_page_only:
  "getAllExpenses ''U'' (sample_query (Some ''2'') (Some ''1'')) sample_store =
     Inr \<lparr> lr_expenses = [sample_expense 2 ''U'' ''Food'' 50 1737374400000,
                          sample_expense 3 ''U'' ''Transportation'' 30 1736510400000],
           lr_pagination = Some \<lparr> currentPage = 1, totalPages = 2, pg_totalExpenses = 3,
                                  expensesPerPage = 2 \<rparr>,
           lr_summary = \<lparr> sm_totalExpenses = 3, sm_totalAmount = 80 \<rparr> \<rparr>
   \<and> toFixed2 (sum_list (map amount
         (find_all (list_filter ''U'' (sample_query (Some ''2'') (Some ''1''))) sample_store))) = 180"
  by code_simp

section \<open>The window of the monthly report\<close>

lemma div_step:
  assumes c: "0 < (c::int)"
  shows "(x + 1) div c - x div c = (if (x + 1) mod c = 0 then 1 else 0)"
proof -
  define q r where "q = x div c" and "r = x mod c"
  have x: "x = c * q + r" by (simp add: q_def r_def)
  have r: "0 \<le> r" "r < c" using c by (simp_all add: r_def)
  show ?thesis
  proof (cases "r + 1 < c")
    case True
    have e: "x + 1 = c * q + (r + 1)" using x by simp
    have "(x + 1) div c = q"
      using e r True by (intro int_div_pos_eq [of "x + 1" c q "r + 1"]) simp_all
    moreover have "(x + 1) mod c = r + 1"
      using e r True by (intro int_mod_pos_eq [of "x + 1" c q "r + 1"]) simp_all
    ultimately show ?thesis using r by (simp add: q_def)
  next
    case False
    then have rc: "r + 1 = c" using r by simp
    have e: "x + 1 = c * (q + 1) + 0" using x rc by (simp add: algebra_simps)
    have "(x + 1) div c = q + 1"
      using e c by (intro int_div_pos_eq [of "x + 1" c "q + 1" 0]) simp_all
    moreover have "(x + 1) mod c = 0"
      using e c by (intro int_mod_pos_eq [of "x + 1" c "q + 1" 0]) simp_all
    ultimately show ?thesis by (simp add: q_def)
  qed
qed

lemma mod_shift: "(c::int) dvd k \<Longrightarrow> (y - k) mod c = y mod c"
  by (metis dvd_eq_mod_eq_0 mod_diff_right_eq diff_zero)

lemma year_length: "DayFromYear (y + 1) - DayFromYear y = (if InLeapYear y then 366 else 365)"
proof -
  have a: "(y - 1968) div 4 - (y - 1969) div 4 = (if y mod 4 = 0 then 1 else 0)"
    using div_step [of 4 "y - 1969"] mod_shift [of 4 1968 y] by simp
  have b: "(y - 1900) div 100 - (y - 1901) div 100 = (if y mod 100 = 0 then 1 else 0)"
    using div_step [of 100 "y - 1901"] mod_shift [of 100 1900 y] by simp
  have c: "(y - 1600) div 400 - (y - 1601) div 400 = (if y mod 400 = 0 then 1 else 0)"
    using div_step [of 400 "y - 1601"] mod_shift [of 400 1600 y] by simp
  have d1: "y mod 100 = 0" if "y mod 400 = 0"
  proof -
    have "(100::int) dvd 400" by simp
    then show ?thesis using that by (meson dvd_trans mod_eq_0_iff_dvd)
  qed
  have d2: "y mod 4 = 0" if "y mod 100 = 0"
  proof -
    have "(4::int) dvd 100" by simp
    then show ?thesis using that by (meson dvd_trans mod_eq_0_iff_dvd)
  qed
  have "DayFromYear (y + 1) - DayFromYear y =
      365 + ((y - 1968) div 4 - (y - 1969) div 4) - ((y - 1900) div 100 - (y - 1901) div 100)
        + ((y - 1600) div 400 - (y - 1601) div 400)"
    by (simp add: DayFromYear_def)
  then show ?thesis
    unfolding a b c InLeapYear_def using d1 d2 by auto
qed

lemma month_cases:
  assumes "1 \<le> (m::int)" "m \<le> 12"
  shows "m = 1 \<or> m = 2 \<or> m = 3 \<or> m = 4 \<or> m = 5 \<or> m = 6 \<or> m = 7 \<or> m = 8 \<or> m = 9
         \<or> m = 10 \<or> m = 11 \<or> m = 12"
  using assms by arith

lemma month_length:
  assumes "1 \<le> m" "m \<le> 12"
  shows "MakeDay y m 1 - MakeDay y (m - 1) 1 = DaysInMonth m (InLeapYear y)"
proof -
  have last: "DayFromYear (y + 1) = DayFromYear y + (if InLeapYear y then 366 else 365)"
    using year_length [of y] by simp
  from month_cases [OF assms] show ?thesis
    by (elim disjE) (simp_all add: MakeDay_def month_start_def DaysInMonth_def last)
qed

lemma window_end:
  "new_Date tza year month 0 23 59 59 = new_Date tza year month 1 0 0 0 - 1000"
  by (simp add: new_Date_def MakeDay_def MakeDate_def MakeTime_def Let_def)

lemma window_length:
  assumes "1 \<le> month" "month \<le> 12"
  shows "new_Date tza year month 1 0 0 0 - new_Date tza year (month - 1) 1 0 0 0 =
         86400000 * DaysInMonth month (InLeapYear (if 0 \<le> year \<and> year \<le> 99 then 1900 + year else year))"
  using month_length [OF assms] 
  by (simp add: new_Date_def MakeDate_def MakeTime_def Let_def algebra_simps)

lemma month_match_iff:
  "month_match tza uid month year e \<longleftrightarrow>
     userId e = uid \<and> new_Date tza year (month - 1) 1 0 0 0 \<le> date e
       \<and> date e \<le> new_Date tza year month 1 0 0 0 - 1000"
  by (simp add: month_match_def Let_def window_end)

text \<open>
  Claim C2. The monthly report is said to match every expense of the user dated within the
  month, up to and including the month's final instant. The window that \<open>getMonthlySummary\<close>
  and \<open>getMonthlyReport\<close> build ends at \<open>23:59:59.000\<close> of the last day (see
  \<open>month_match_iff\<close>), so an expense dated in the last 999 milliseconds of the month is
  matched by no monthly report: \<open>late_expense\<close>, dated 2025-01-31 23:59:59.500, lies in
  January 2025 and is in neither the January nor the February report.
\<close>

theorem monthly_report_misses_final_second:
  "new_Date 0 2025 0 1 0 0 0 \<le> date late_expense \<and> date late_expense < new_Date 0 2025 1 1 0 0 0
   \<and> mr_expenses (getMonthlyReport 0 ''U'' 1 2025 [late_expense]) = []
   \<and> ms_totalTransactions (getMonthlySummary 0 ''U'' 1 2025 [late_expense]) = 0
   \<and> mr_expenses (getMonthlyReport 0 ''U'' 2 2025 [late_expense]) = []"
  by code_simp

section \<open>Sorting and grouping\<close>






lemma mset_sort_desc_total: "mset (sort_desc_total gs) = mset gs"
  by (simp add: sort_desc_total_def mset_sort_by)

lemma group_by_snoc: "group_by key (xs @ [x]) = group_add (key x) (amount x) (group_by key xs)"
  by (simp add: group_by_def)

lemma group_by_Nil: "group_by key [] = []"
  by (simp add: group_by_def)






lemma sum_count_group_add: "sum_list (map g_count (group_add k a gs)) = sum_list (map g_count gs) + 1"
  by (induction gs) auto




lemma sum_count_group_by: "sum_list (map g_count (group_by key xs)) = length xs"
  by (induction xs rule: rev_induct) (simp_all add: group_by_Nil group_by_snoc sum_count_group_add)






lemma group_sum_pos:
  assumes "\<forall>e\<in>set xs. 0 < amount e" "k \<in> key ` set xs"
  shows "0 < group_sum key xs k"
proof -
  let ?ys = "filter (\<lambda>e. key e = k) xs"
  have ne: "?ys \<noteq> []" using assms(2) by (auto simp: filter_empty_conv)
  have pos: "\<forall>a\<in>set (map amount ?ys). 0 < a" using assms(1) by auto
  have "0 < sum_list zs" if "zs \<noteq> []" "\<forall>a\<in>set zs. 0 < a" for zs :: "rat list"
    using that by (induction zs) (auto intro: add_pos_nonneg sum_list_nonneg less_imp_le)
  then show ?thesis unfolding group_sum_def using ne pos by simp
qed


section \<open>The monthly summary\<close>


lemma sum_list_mset_cong:
  fixes f :: "'a \<Rightarrow> 'b::comm_monoid_add"
  shows "mset xs = mset ys \<Longrightarrow> sum_list (map f xs) = sum_list (map f ys)"
  by (metis mset_map sum_mset_sum_list)



lemma monthly_groups_count:
  "sum_list (map g_count (monthly_groups tza uid month year S)) =
   length (filter (month_match tza uid month year) S)"
  unfolding monthly_groups_def
  using sum_list_mset_cong [OF mset_sort_desc_total, of g_count] by (simp add: sum_count_group_by)












section \<open>Percentages of the breakdowns\<close>







section \<open>The category report: statistics\<close>






lemma report_expenses_mset:
  "mset (cr_expenses (getCategoryReport uid q S)) = mset (find_all (category_filter uid q) S)"
  by (simp add: getCategoryReport_def Let_def mset_sort_docs)



section \<open>The category report: monthly trend\<close>

subsection \<open>Years and months of an instant\<close>










subsection \<open>Zero-padded decimals in lexicographic order\<close>









subsection \<open>Month labels and trend entries\<close>

















section \<open>Reading, updating and deleting one expense: results\<close>

subsection \<open>Finding\<close>

lemma findOne_Some:
  "findOne i uid S = Some e \<Longrightarrow> e \<in> set S \<and> expense_id e = i \<and> userId e = uid"
  unfolding findOne_def by (auto simp: find_Some_iff)

lemma findOne_None_iff:
  "findOne i uid S = None \<longleftrightarrow> \<not> (\<exists>e\<in>set S. expense_id e = i \<and> userId e = uid)"
  unfolding findOne_def by (auto simp: find_None_iff)

lemma findOne_Some_iff:
  "(\<exists>e. findOne i uid S = Some e) \<longleftrightarrow> (\<exists>e\<in>set S. expense_id e = i \<and> userId e = uid)"
  using findOne_None_iff [of i uid S] by (cases "findOne i uid S") auto

lemma findOne_owned: "findOne i uid (owned uid S) = findOne i uid S"
  unfolding findOne_def owned_def by (induction S) auto

lemma fresh_id: "i \<notin> expense_id ` set es \<Longrightarrow> \<forall>x\<in>set es. expense_id x \<noteq> i"
  by auto

lemma unique_by_id:
  "distinct (map expense_id S) \<Longrightarrow> e \<in> set S \<Longrightarrow> x \<in> set S \<Longrightarrow> expense_id x = expense_id e
   \<Longrightarrow> x = e"
  by (meson distinct_map inj_onD)

subsection \<open>Deleting\<close>

lemma others_deleteOne:
  "others uid (deleteOne (\<lambda>e. expense_id e = i \<and> userId e = uid) S) = others uid S"
  unfolding others_def by (induction S) auto

lemma owned_deleteOne:
  "owned uid (deleteOne (\<lambda>e. expense_id e = i \<and> userId e = uid) S) =
   deleteOne (\<lambda>e. expense_id e = i \<and> userId e = uid) (owned uid S)"
  unfolding owned_def by (induction S) auto

lemma set_deleteOne: "set (deleteOne P S) \<subseteq> set S"
  by (induction S) auto

lemma distinct_deleteOne: "distinct (map expense_id S) \<Longrightarrow> distinct (map expense_id (deleteOne P S))"
proof (induction S)
  case Nil
  then show ?case by simp
next
  case (Cons e es)
  then show ?case using set_deleteOne [of P es] by auto
qed


subsection \<open>Replacing\<close>

lemma others_replaceOne:
  assumes "\<forall>x\<in>set S. expense_id x = i \<longrightarrow> userId x = uid" "userId d = uid"
  shows "others uid (replaceOne i d S) = others uid S"
  using assms unfolding others_def by (induction S) auto

lemma owned_replaceOne:
  assumes "\<forall>x\<in>set S. expense_id x = i \<longrightarrow> userId x = uid" "userId d = uid"
  shows "owned uid (replaceOne i d S) = replaceOne i d (owned uid S)"
  using assms unfolding owned_def by (induction S) auto

lemma replaceOne_map:
  "distinct (map expense_id S) \<Longrightarrow>
   replaceOne i d S = map (\<lambda>x. if expense_id x = i then d else x) S"
proof (induction S)
  case Nil
  then show ?case by simp
next
  case (Cons e es)
  show ?case
  proof (cases "expense_id e = i")
    case True
    then have "\<forall>x\<in>set es. expense_id x \<noteq> i" using Cons.prems fresh_id [of i es] by simp
    then have "map (\<lambda>x. if expense_id x = i then d else x) es = es"
      by (simp add: map_idI)
    then show ?thesis using True by simp
  next
    case False
    then show ?thesis using Cons by simp
  qed
qed

lemma distinct_replaceOne:
  "distinct (map expense_id S) \<Longrightarrow> expense_id d = i \<Longrightarrow>
   distinct (map expense_id (replaceOne i d S))"
proof -
  assume d: "distinct (map expense_id S)" and i: "expense_id d = i"
  have "map expense_id (map (\<lambda>x. if expense_id x = i then d else x) S) = map expense_id S"
    using i by (induction S) auto
  then show ?thesis using d by (simp only: replaceOne_map [OF d])
qed

subsection \<open>Applying the request body\<close>

lemma set_path_frame:
  assumes "set_path key v e = Some d"
  shows "expense_id d = expense_id e \<and> userId d = userId e \<and> createdAt d = createdAt e
       \<and> updatedAt d = updatedAt e
       \<and> (key \<noteq> ''title'' \<longrightarrow> title d = title e)
       \<and> (key \<noteq> ''amount'' \<longrightarrow> amount d = amount e)
       \<and> (key \<noteq> ''category'' \<longrightarrow> category d = category e)
       \<and> (key \<noteq> ''date'' \<longrightarrow> date d = date e)
       \<and> (key \<noteq> ''notes'' \<longrightarrow> e_notes d = e_notes e)
       \<and> (key \<noteq> ''paymentMethod'' \<longrightarrow> paymentMethod d = paymentMethod e)"
  using assms by (auto simp: set_path_def split: if_splits js_value.splits)

lemma apply_updates_frame:
  "apply_updates body e = Some d \<Longrightarrow>
     expense_id d = expense_id e \<and> userId d = userId e \<and> createdAt d = createdAt e
       \<and> updatedAt d = updatedAt e
       \<and> (''title'' \<notin> fst ` set body \<longrightarrow> title d = title e)
       \<and> (''amount'' \<notin> fst ` set body \<longrightarrow> amount d = amount e)
       \<and> (''category'' \<notin> fst ` set body \<longrightarrow> category d = category e)
       \<and> (''date'' \<notin> fst ` set body \<longrightarrow> date d = date e)
       \<and> (''notes'' \<notin> fst ` set body \<longrightarrow> e_notes d = e_notes e)
       \<and> (''paymentMethod'' \<notin> fst ` set body \<longrightarrow> paymentMethod d = paymentMethod e)"
proof (induction body arbitrary: e)
  case Nil
  then show ?case by simp
next
  case (Cons kv kvs)
  obtain key v where kv: "kv = (key, v)" by (cases kv)
  show ?case
  proof (cases "key \<in> set allowedUpdates")
    case True
    with Cons.prems kv obtain e' where s: "set_path key v e = Some e'"
        and r: "apply_updates kvs e' = Some d"
      by (auto split: option.splits)
    from set_path_frame [OF s] Cons.IH [OF r] show ?thesis
      unfolding kv by (simp; metis)
  next
    case False
    with Cons.prems kv have r: "apply_updates kvs e = Some d" by simp
    have "key \<noteq> ''title''" "key \<noteq> ''amount''" "key \<noteq> ''category''" "key \<noteq> ''date''"
        "key \<noteq> ''notes''" "key \<noteq> ''paymentMethod''"
      using False by (auto simp: allowedUpdates_def)
    with Cons.IH [OF r] show ?thesis unfolding kv by simp
  qed
qed

lemma apply_updates_allowed_only:
  "apply_updates body e = apply_updates (filter (\<lambda>kv. fst kv \<in> set allowedUpdates) body) e"
  by (induction body arbitrary: e) (auto split: option.splits)

subsection \<open>Outcomes of the handlers\<close>

lemma getExpenseById_cases:
  "getExpenseById uid i S = (case findOne i uid S of None \<Rightarrow> Inl NotFound | Some e \<Rightarrow> Inr e)"
  by (simp add: getExpenseById_def)

lemma updateExpense_Inr:
  assumes "updateExpense now uid i body S = Inr (e', T)"
  shows "\<exists>e d. findOne i uid S = Some e \<and> apply_updates body e = Some d \<and> schema_valid d
    \<and> (if d = e then e' = e \<and> T = S
        else e' = d\<lparr>updatedAt := now\<rparr> \<and> T = replaceOne (expense_id d) e' S)"
  using assms
  by (auto simp: updateExpense_def save_def Let_def split: option.splits if_splits)



lemma deleteExpense_cases:
  "deleteExpense uid i S =
     (case findOne i uid S of None \<Rightarrow> Inl NotFound
      | Some e \<Rightarrow> Inr (e, deleteOne (\<lambda>e. expense_id e = i \<and> userId e = uid) S))"
  by (simp add: deleteExpense_def)

text \<open>
  Claim C7. A successful update of an owned record changes, among title, amount, category,
  date, notes and paymentMethod, only fields whose key is in the request body; the id, the
  owner and the creation timestamp keep their value whatever the body contains, and keys
  outside the allow-list have no effect at all. \<open>updatedAt\<close> is set to the current time
  when a field changed, the stored record is replaced by the returned one and no other
  record of the collection changes.
\<close>

theorem update_frame:
  assumes "updateExpense now uid i body S = Inr (e', T)"
  shows "\<exists>e. findOne i uid S = Some e
       \<and> expense_id e' = expense_id e \<and> userId e' = userId e \<and> createdAt e' = createdAt e
       \<and> (''title'' \<notin> fst ` set body \<longrightarrow> title e' = title e)
       \<and> (''amount'' \<notin> fst ` set body \<longrightarrow> amount e' = amount e)
       \<and> (''category'' \<notin> fst ` set body \<longrightarrow> category e' = category e)
       \<and> (''date'' \<notin> fst ` set body \<longrightarrow> date e' = date e)
       \<and> (''notes'' \<notin> fst ` set body \<longrightarrow> e_notes e' = e_notes e)
       \<and> (''paymentMethod'' \<notin> fst ` set body \<longrightarrow> paymentMethod e' = paymentMethod e)
       \<and> updatedAt e' = (if e'\<lparr>updatedAt := updatedAt e\<rparr> = e then updatedAt e else now)
       \<and> T = (if e'\<lparr>updatedAt := updatedAt e\<rparr> = e then S else replaceOne i e' S)
       \<and> (distinct (map expense_id S) \<longrightarrow>
            T = map (\<lambda>x. if expense_id x = i then e' else x) S)
       \<and> updateExpense now uid i (filter (\<lambda>kv. fst kv \<in> set allowedUpdates) body) S = Inr (e', T)"
proof -
  from updateExpense_Inr [OF assms]
  obtain e d where f: "findOne i uid S = Some e" and a: "apply_updates body e = Some d"
    and v: "schema_valid d"
    and c: "if d = e then e' = e \<and> T = S
        else e' = d\<lparr>updatedAt := now\<rparr> \<and> T = replaceOne (expense_id d) e' S"
    by blast
  have same: "e' = e \<and> T = S" if "d = e" using c that by simp
  have diff: "e' = d\<lparr>updatedAt := now\<rparr> \<and> T = replaceOne (expense_id d) e' S" if "d \<noteq> e"
    using c that by simp
  note fr = apply_updates_frame [OF a]
  have ide: "expense_id e = i" "e \<in> set S" using findOne_Some [OF f] by simp_all
  have undo: "e'\<lparr>updatedAt := updatedAt e\<rparr> = d"
  proof (cases "d = e")
    case True
    then show ?thesis using same by simp
  next
    case False
    then show ?thesis using diff fr by simp
  qed
  have fields: "expense_id e' = expense_id d \<and> userId e' = userId d \<and> createdAt e' = createdAt d
      \<and> title e' = title d \<and> amount e' = amount d \<and> category e' = category d
      \<and> date e' = date d \<and> e_notes e' = e_notes d \<and> paymentMethod e' = paymentMethod d"
    using same diff by (cases "d = e") auto
  have upd: "updatedAt e' = (if e'\<lparr>updatedAt := updatedAt e\<rparr> = e then updatedAt e else now)"
    unfolding undo using same diff by (cases "d = e") auto
  have st: "T = (if e'\<lparr>updatedAt := updatedAt e\<rparr> = e then S else replaceOne i e' S)"
    unfolding undo using same diff fr ide by (cases "d = e") auto
  have mp: "T = map (\<lambda>x. if expense_id x = i then e' else x) S" if dist: "distinct (map expense_id S)"
  proof (cases "d = e")
    case True
    then have ee: "e' = e" and ts: "T = S" using same by simp_all
    have "map (\<lambda>x. if expense_id x = i then e else x) S = S"
      using unique_by_id [OF dist ide(2)] ide(1) by (intro map_idI) auto
    then show ?thesis unfolding ee ts by (rule sym)
  next
    case False
    then show ?thesis using diff fr ide replaceOne_map [OF dist, of i e'] by simp
  qed
  have flt: "updateExpense now uid i (filter (\<lambda>kv. fst kv \<in> set allowedUpdates) body) S =
      updateExpense now uid i body S"
    unfolding updateExpense_def
    by (simp add: apply_updates_allowed_only [symmetric] cong: option.case_cong)
  show ?thesis
    using f fr fields upd st mp flt assms by (intro exI [of _ e]) simp
qed

theorem update_frame_witness:
  "updateExpense 5 ''U'' 1 sample_body sample_store =
     Inr ((sample_expense 1 ''U'' ''Food'' 3 1736078400000)\<lparr>title := ''Dinner'', updatedAt := 5\<rparr>,
          (sample_expense 1 ''U'' ''Food'' 3 1736078400000)\<lparr>title := ''Dinner'', updatedAt := 5\<rparr>
            # tl sample_store)
   \<and> findOne 1 ''U'' sample_store = Some (sample_expense 1 ''U'' ''Food'' 100 1736078400000)
   \<and> userId ((sample_expense 1 ''U'' ''Food'' 3 1736078400000)\<lparr>title := ''Dinner'', updatedAt := 5\<rparr>) =
       userId (sample_expense 1 ''U'' ''Food'' 100 1736078400000)
   \<and> createdAt ((sample_expense 1 ''U'' ''Food'' 3 1736078400000)\<lparr>title := ''Dinner'', updatedAt := 5\<rparr>) =
       createdAt (sample_expense 1 ''U'' ''Food'' 100 1736078400000)
   \<and> category ((sample_expense 1 ''U'' ''Food'' 3 1736078400000)\<lparr>title := ''Dinner'', updatedAt := 5\<rparr>) =
       category (sample_expense 1 ''U'' ''Food'' 100 1736078400000)
   \<and> date ((sample_expense 1 ''U'' ''Food'' 3 1736078400000)\<lparr>title := ''Dinner'', updatedAt := 5\<rparr>) =
       date (sample_expense 1 ''U'' ''Food'' 100 1736078400000)"
proof -
  let ?e = "sample_expense 1 ''U'' ''Food'' 100 1736078400000"
  let ?e' = "(sample_expense 1 ''U'' ''Food'' 3 1736078400000)\<lparr>title := ''Dinner'', updatedAt := 5\<rparr>"
  have ev: "updateExpense 5 ''U'' 1 sample_body sample_store = Inr (?e', ?e' # tl sample_store)"
    by code_simp
  have fo: "findOne 1 ''U'' sample_store = Some ?e" by code_simp
  have keys: "''category'' \<notin> fst ` set sample_body" "''date'' \<notin> fst ` set sample_body"
    by (simp_all add: sample_body_def)
  from update_frame [OF ev] fo keys
  have "userId ?e' = userId ?e \<and> createdAt ?e' = createdAt ?e \<and> category ?e' = category ?e
        \<and> date ?e' = date ?e"
    by auto
  then show ?thesis using ev fo by simp
qed

subsection \<open>Not-Found semantics\<close>

lemma owned_exists_iff:
  "(\<exists>e. findOne i uid S = Some e) \<longleftrightarrow> (\<exists>e\<in>set S. expense_id e = i \<and> userId e = uid)"
  by (rule findOne_Some_iff)




subsection \<open>Isolation between users\<close>

lemma matches_owner: "matches f e \<Longrightarrow> userId e = f_userId f"
  by (simp add: matches_def)

lemma filter_matches_owned:
  "f_userId f = uid \<Longrightarrow> filter (matches f) (owned uid S) = filter (matches f) S"
  unfolding owned_def by (induction S) (auto dest: matches_owner)

lemma getAllExpenses_owned: "getAllExpenses uid q (owned uid S) = getAllExpenses uid q S"
proof -
  have u: "f_userId (list_filter uid q) = uid" by (simp add: list_filter_def)
  show ?thesis
    unfolding getAllExpenses_def find_all_def countDocuments_def Let_def
      filter_matches_owned [OF u] ..
qed

lemma getAllExpenses_owner:
  assumes "getAllExpenses uid q S = Inr r" "e \<in> set (lr_expenses r)"
  shows "userId e = uid"
proof -
  let ?all = "sort_docs (sortBy q) (sortOrder q) (find_all (list_filter uid q) S)"
  have own: "userId x = uid" if "x \<in> set ?all" for x
    using that matches_owner [of "list_filter uid q" x]
    by (simp add: set_sort_docs find_all_def list_filter_def)
  have "set (lr_expenses r) \<subseteq> set ?all"
    using assms(1) set_take_subset [of _ "drop _ ?all"] set_drop_subset [of _ ?all]
    by (auto simp: getAllExpenses_def Let_def split: if_splits option.splits
        dest!: in_set_takeD in_set_dropD)
  then show ?thesis using own assms(2) by blast
qed

lemma getExpenseById_owned: "getExpenseById uid i (owned uid S) = getExpenseById uid i S"
  by (simp add: getExpenseById_def findOne_owned)

lemma owned_idem: "owned uid (owned uid S) = owned uid S"
  by (simp add: owned_def)

lemma owned_of_others: "B \<noteq> A \<Longrightarrow> owned B (others A S) = owned B S"
  unfolding owned_def others_def by (induction S) auto

lemma deleteExpense_observed:
  "observed uid (deleteExpense uid i S) = observed uid (deleteExpense uid i (owned uid S))"
  by (cases "findOne i uid S")
     (simp_all add: deleteExpense_def observed_def findOne_owned owned_deleteOne owned_idem)

lemma id_owner:
  assumes "distinct (map expense_id S)" "findOne i uid S = Some e"
  shows "\<forall>x\<in>set S. expense_id x = i \<longrightarrow> userId x = uid"
proof (intro ballI impI)
  fix x assume x: "x \<in> set S" "expense_id x = i"
  have e: "e \<in> set S" "expense_id e = i" "userId e = uid" using findOne_Some [OF assms(2)] by simp_all
  have "x = e" using assms(1) e(1) x(1) by (rule unique_by_id) (simp add: x(2) e(2))
  then show "userId x = uid" using e(3) by simp
qed

lemma updateExpense_observed:
  assumes "distinct (map expense_id S)"
  shows "observed uid (updateExpense now uid i body S) =
         observed uid (updateExpense now uid i body (owned uid S))"
proof (cases "findOne i uid S")
  case None
  then show ?thesis by (simp add: updateExpense_def observed_def findOne_owned)
next
  case (Some e)
  note io = id_owner [OF assms Some]
  show ?thesis
  proof (cases "apply_updates body e")
    case None
    then show ?thesis using Some by (simp add: updateExpense_def observed_def findOne_owned)
  next
    case (Some d)
    have u: "userId d = uid" "expense_id d = i"
      using apply_updates_frame [OF Some] findOne_Some [OF \<open>findOne i uid S = Some e\<close>] by simp_all
    have io': "\<forall>x\<in>set (owned uid S). expense_id x = i \<longrightarrow> userId x = uid"
      by (simp add: owned_def)
    show ?thesis
      using Some \<open>findOne i uid S = Some e\<close> u
        owned_replaceOne [OF io, of "d\<lparr>updatedAt := now\<rparr>"]
        owned_replaceOne [OF io', of "d\<lparr>updatedAt := now\<rparr>"]
      by (simp add: updateExpense_def save_def Let_def observed_def findOne_owned owned_idem)
  qed
qed

lemma updateExpense_others:
  assumes "distinct (map expense_id S)" "updateExpense now uid i body S = Inr (e', T)"
  shows "userId e' = uid \<and> others uid T = others uid S"
proof -
  from updateExpense_Inr [OF assms(2)]
  obtain e d where f: "findOne i uid S = Some e" and a: "apply_updates body e = Some d"
    and c: "if d = e then e' = e \<and> T = S
        else e' = d\<lparr>updatedAt := now\<rparr> \<and> T = replaceOne (expense_id d) e' S"
    by blast
  have u: "userId d = uid" "expense_id d = i" "userId e = uid"
    using apply_updates_frame [OF a] findOne_Some [OF f] by simp_all
  show ?thesis
  proof (cases "d = e")
    case True
    then show ?thesis using c u by simp
  next
    case False
    then have e': "e' = d\<lparr>updatedAt := now\<rparr>" and T: "T = replaceOne i e' S"
      using c u by simp_all
    have "userId e' = uid" using e' u by simp
    then show ?thesis
      unfolding T using others_replaceOne [OF id_owner [OF assms(1) f], of e'] by simp
  qed
qed

lemma deleteExpense_others:
  assumes "deleteExpense uid i S = Inr (e, T)"
  shows "userId e = uid \<and> others uid T = others uid S"
proof (cases "findOne i uid S")
  case None
  then show ?thesis using assms by (simp add: deleteExpense_def)
next
  case (Some x)
  then show ?thesis
    using assms findOne_Some [OF Some] by (auto simp: deleteExpense_def others_deleteOne)
qed

text \<open>
  Claim C5. Let two collections with unique ids hold the same records of user \<open>A\<close> and
  any records of other users. Then \<open>A\<close>'s list and get return the same in both, and only
  records owned by \<open>A\<close>; \<open>A\<close>'s update and delete give the same response and leave the same
  records of \<open>A\<close> in both; and a successful update or delete by \<open>A\<close> returns a record
  of \<open>A\<close> and leaves the records of every other user \<open>B\<close> as they were.
\<close>

theorem user_isolation:
  assumes dist: "distinct (map expense_id S)" "distinct (map expense_id S')"
    and same: "owned A S = owned A S'"
  shows "getAllExpenses A q S = getAllExpenses A q S'
     \<and> (\<forall>r. getAllExpenses A q S = Inr r \<longrightarrow> (\<forall>e\<in>set (lr_expenses r). userId e = A))
     \<and> getExpenseById A i S = getExpenseById A i S'
     \<and> (\<forall>e. getExpenseById A i S = Inr e \<longrightarrow> userId e = A)
     \<and> observed A (updateExpense now A i body S) = observed A (updateExpense now A i body S')
     \<and> (\<forall>e T. updateExpense now A i body S = Inr (e, T) \<longrightarrow>
           userId e = A \<and> others A T = others A S \<and> (\<forall>B. B \<noteq> A \<longrightarrow> owned B T = owned B S))
     \<and> observed A (deleteExpense A i S) = observed A (deleteExpense A i S')
     \<and> (\<forall>e T. deleteExpense A i S = Inr (e, T) \<longrightarrow>
           userId e = A \<and> others A T = others A S \<and> (\<forall>B. B \<noteq> A \<longrightarrow> owned B T = owned B S))"
proof -
  have l1: "getAllExpenses A q S = getAllExpenses A q S'"
    using getAllExpenses_owned [of A q S] getAllExpenses_owned [of A q S'] same by simp
  have l2: "\<forall>r. getAllExpenses A q S = Inr r \<longrightarrow> (\<forall>e\<in>set (lr_expenses r). userId e = A)"
    using getAllExpenses_owner by blast
  have g1: "getExpenseById A i S = getExpenseById A i S'"
    using getExpenseById_owned [of A i S] getExpenseById_owned [of A i S'] same by simp
  have g2: "\<forall>e. getExpenseById A i S = Inr e \<longrightarrow> userId e = A"
  proof (intro allI impI)
    fix e assume "getExpenseById A i S = Inr e"
    then have "findOne i A S = Some e"
      by (cases "findOne i A S") (simp_all add: getExpenseById_def)
    then show "userId e = A" using findOne_Some by blast
  qed
  have u1: "observed A (updateExpense now A i body S) = observed A (updateExpense now A i body S')"
    using updateExpense_observed [OF dist(1), of A now i body]
      updateExpense_observed [OF dist(2), of A now i body] same by simp
  have oth: "\<forall>B. B \<noteq> A \<longrightarrow> owned B T = owned B S" if "others A T = others A S" for T
    using that owned_of_others [of _ A T] owned_of_others [of _ A S] by metis
  have u2: "\<forall>e T. updateExpense now A i body S = Inr (e, T) \<longrightarrow>
           userId e = A \<and> others A T = others A S \<and> (\<forall>B. B \<noteq> A \<longrightarrow> owned B T = owned B S)"
    using updateExpense_others [OF dist(1)] oth by blast
  have d1: "observed A (deleteExpense A i S) = observed A (deleteExpense A i S')"
    using deleteExpense_observed [of A i S] deleteExpense_observed [of A i S'] same by simp
  have d2: "\<forall>e T. deleteExpense A i S = Inr (e, T) \<longrightarrow>
           userId e = A \<and> others A T = others A S \<and> (\<forall>B. B \<noteq> A \<longrightarrow> owned B T = owned B S)"
    using deleteExpense_others oth by blast
  show ?thesis by (intro conjI l1 l2 g1 g2 u1 u2 d1 d2)
qed

theorem user_isolation_witness:
  "distinct (map expense_id sample_store) \<and> distinct (map expense_id other_store)
   \<and> owned ''U'' sample_store = owned ''U'' other_store
   \<and> others ''U'' other_store =
       [sample_expense 9 ''V'' ''Bills'' 40 1736078400000,
        sample_expense 8 ''W'' ''Travel'' 900 1737374400000]
   \<and> getAllExpenses ''U'' (sample_query None None) sample_store =
       getAllExpenses ''U'' (sample_query None None) other_store
   \<and> getExpenseById ''U'' 9 sample_store = getExpenseById ''U'' 9 other_store
   \<and> getExpenseById ''U'' 9 other_store = Inl NotFound
   \<and> observed ''U'' (updateExpense 5 ''U'' 1 sample_body sample_store) =
       observed ''U'' (updateExpense 5 ''U'' 1 sample_body other_store)
   \<and> observed ''U'' (deleteExpense ''U'' 2 sample_store) =
       observed ''U'' (deleteExpense ''U'' 2 other_store)
   \<and> deleteExpense ''U'' 2 other_store =
       Inr (sample_expense 2 ''U'' ''Food'' 50 1737374400000,
            deleteOne (\<lambda>e. expense_id e = 2 \<and> userId e = ''U'') other_store)
   \<and> others ''U'' (deleteOne (\<lambda>e. expense_id e = 2 \<and> userId e = ''U'') other_store) =
       others ''U'' other_store"
proof -
  have d1: "distinct (map expense_id sample_store)" by code_simp
  have d2: "distinct (map expense_id other_store)" by code_simp
  have same: "owned ''U'' sample_store = owned ''U'' other_store" by code_simp
  have oth: "others ''U'' other_store =
       [sample_expense 9 ''V'' ''Bills'' 40 1736078400000,
        sample_expense 8 ''W'' ''Travel'' 900 1737374400000]" by code_simp
  have nf: "getExpenseById ''U'' 9 other_store = Inl NotFound" by code_simp
  have del: "deleteExpense ''U'' 2 other_store =
       Inr (sample_expense 2 ''U'' ''Food'' 50 1737374400000,
            deleteOne (\<lambda>e. expense_id e = 2 \<and> userId e = ''U'') other_store)"
    by (simp add: deleteExpense_def findOne_def other_store_def sample_expense_def)
  note A9 = user_isolation [OF d1 d2 same, where q = "sample_query None None" and i = 9
      and now = 5 and body = sample_body]
  note A1 = user_isolation [OF d1 d2 same, where q = "sample_query None None" and i = 1
      and now = 5 and body = sample_body]
  note A2 = user_isolation [OF d1 d2 same, where q = "sample_query None None" and i = 2
      and now = 5 and body = sample_body]
  note B = user_isolation [OF d2 d1 same [symmetric], where q = "sample_query None None" and i = 2
      and now = 5 and body = sample_body]
  have a: "getAllExpenses ''U'' (sample_query None None) sample_store =
       getAllExpenses ''U'' (sample_query None None) other_store" using A9 by blast
  have b: "getExpenseById ''U'' 9 sample_store = getExpenseById ''U'' 9 other_store" using A9 by blast
  have c: "observed ''U'' (updateExpense 5 ''U'' 1 sample_body sample_store) =
       observed ''U'' (updateExpense 5 ''U'' 1 sample_body other_store)" using A1 by blast
  have d: "observed ''U'' (deleteExpense ''U'' 2 sample_store) =
       observed ''U'' (deleteExpense ''U'' 2 other_store)" using A2 by blast
  have e: "others ''U'' (deleteOne (\<lambda>e. expense_id e = 2 \<and> userId e = ''U'') other_store) =
       others ''U'' other_store" using B del by blast
  show ?thesis by (intro conjI d1 d2 same oth a b nf c d del e)
qed

section \<open>The stored amounts stay positive\<close>

text \<open>
  Creating, updating and deleting keep every stored amount positive, the invariant under
  which the percentages are defined: \<open>create\<close> and \<open>save\<close> run the schema's validators.
\<close>

lemma set_replaceOne: "set (replaceOne i d S) \<subseteq> insert d (set S)"
  by (induction S) auto

lemma createExpense_positive:
  assumes "\<forall>e\<in>set S. 0 < amount e" "createExpense new_id now uid b S = Inr (e, T)"
  shows "\<forall>x\<in>set T. 0 < amount x"
  using assms
  by (auto simp: createExpense_def Let_def schema_valid_def split: option.splits if_splits)

lemma createExpense_owner:
  assumes "createExpense new_id now uid b S = Inr (e, T)"
  shows "userId e = uid \<and> expense_id e = new_id \<and> T = S @ [e]"
  using assms
  by (auto simp: createExpense_def Let_def split: option.splits if_splits)

lemma updateExpense_positive:
  assumes "\<forall>e\<in>set S. 0 < amount e" "updateExpense now uid i body S = Inr (e', T)"
  shows "\<forall>x\<in>set T. 0 < amount x"
proof -
  from updateExpense_Inr [OF assms(2)]
  obtain e d where v: "schema_valid d"
    and c: "if d = e then e' = e \<and> T = S
        else e' = d\<lparr>updatedAt := now\<rparr> \<and> T = replaceOne (expense_id d) e' S"
    by blast
  show ?thesis
  proof (cases "d = e")
    case True
    then show ?thesis using c assms(1) by simp
  next
    case False
    then have e': "e' = d\<lparr>updatedAt := now\<rparr>" and T: "T = replaceOne (expense_id d) e' S"
      using c by simp_all
    have "0 < amount e'" using v e' by (simp add: schema_valid_def)
    then show ?thesis
      unfolding T using assms(1) set_replaceOne [of "expense_id d" e' S] by blast
  qed
qed

lemma deleteExpense_positive:
  assumes "\<forall>e\<in>set S. 0 < amount e" "deleteExpense uid i S = Inr (e, T)"
  shows "\<forall>x\<in>set T. 0 < amount x"
proof -
  have "T = deleteOne (\<lambda>e. expense_id e = i \<and> userId e = uid) S"
    using assms(2) by (cases "findOne i uid S") (simp_all add: deleteExpense_def)
  then show ?thesis using assms(1) set_deleteOne [of _ S] by blast
qed

end
